theory Spec2Isabelle
  imports Main "HOL-Library.Char_ord" "HOL-Library.List_Lexorder"
begin

section \<open>JavaScript strings and numbers used by the scraper\<close>

text \<open>
  Strings are ASCII strings (\<^typ>\<open>string\<close>); the registry keys, the group names typed
  on the command line and the decimal renderings of numbers are all ASCII.
  \<open>toUpperCase\<close> and \<open>toLowerCase\<close> change the 26 ASCII letters and nothing else.
\<close>

definition is_lower :: "char \<Rightarrow> bool" where
  "is_lower c = (let n = (of_char c :: nat) in 97 \<le> n \<and> n \<le> 122)"

definition is_upper :: "char \<Rightarrow> bool" where
  "is_upper c = (let n = (of_char c :: nat) in 65 \<le> n \<and> n \<le> 90)"

definition upper_char :: "char \<Rightarrow> char" where
  "upper_char c = (if is_lower c then char_of ((of_char c :: nat) - 32) else c)"

definition lower_char :: "char \<Rightarrow> char" where
  "lower_char c = (if is_upper c then char_of ((of_char c :: nat) + 32) else c)"

definition toUpperCase :: "string \<Rightarrow> string" where
  "toUpperCase s = map upper_char s"

definition toLowerCase :: "string \<Rightarrow> string" where
  "toLowerCase s = map lower_char s"

text \<open>
  \<open>String(n)\<close> for an integral number: the decimal digits, with a leading minus sign
  for a negative one. Timestamps are integral seconds, far below the magnitude where
  JavaScript switches to exponent notation.
\<close>

definition digit_char :: "nat \<Rightarrow> char" where
  "digit_char d = ''0123456789'' ! d"

fun nat_digits :: "nat \<Rightarrow> string" where
  "nat_digits n =
     (if n < 10 then [digit_char n] else nat_digits (n div 10) @ [digit_char (n mod 10)])"

declare nat_digits.simps [simp del]

definition number_to_string :: "int \<Rightarrow> string" where
  "number_to_string n =
     (if n < 0 then CHR ''-'' # nat_digits (nat (- n)) else nat_digits (nat n))"

text \<open>
  \<open>Array.prototype.sort()\<close> called without a comparison function: the elements are
  converted to strings and ordered by their UTF-16 code units; the sort is stable.
  The order on \<^typ>\<open>string\<close> is the lexicographic one over the character codes, and
  \<^const>\<open>sort_key\<close> is a stable insertion sort.
\<close>

definition sort_js :: "int list \<Rightarrow> int list" where
  "sort_js xs = sort_key number_to_string xs"

subsection \<open>Thrown values\<close>

text \<open>
  The values the scraper throws: the RangeError of \<open>toISOString\<close>, the
  \<open>Error("Group '<name>' not found in configuration")\<close> of \<open>scrapeGroup\<close>, a failed
  \<open>getChatById\<close> and a failed write of the output file.
\<close>

datatype js_error = RangeError | GroupNotFound string | ChatUnavailable string | WriteFailed

subsection \<open>Date.prototype.toISOString\<close>

text \<open>A number in decimal, padded with zeros on the left to the width \<open>w\<close>.\<close>

definition pad :: "nat \<Rightarrow> nat \<Rightarrow> string" where
  "pad w n = replicate (w - length (nat_digits n)) (CHR ''0'') @ nat_digits n"

text \<open>
  The proleptic Gregorian date (year, month, day) of a day number counted from
  1970-01-01, computed in stages: the 400-year era and the day within it, the year
  within the era, the day within the year (years starting in March), the month.
\<close>

definition civil_of_month :: "int \<Rightarrow> int \<Rightarrow> int \<Rightarrow> int \<times> nat \<times> nat" where
  "civil_of_month y doy mp =
     (if mp < 10 then (y, nat (mp + 3), nat (doy - (153 * mp + 2) div 5 + 1))
      else (y + 1, nat (mp - 9), nat (doy - (153 * mp + 2) div 5 + 1)))"

definition civil_of_day :: "int \<Rightarrow> int \<Rightarrow> int \<times> nat \<times> nat" where
  "civil_of_day y doy = civil_of_month y doy ((5 * doy + 2) div 153)"

definition civil_of_year :: "int \<Rightarrow> int \<Rightarrow> int \<Rightarrow> int \<times> nat \<times> nat" where
  "civil_of_year era doe yoe =
     civil_of_day (yoe + era * 400) (doe - (365 * yoe + yoe div 4 - yoe div 100))"

definition civil_of_era :: "int \<Rightarrow> int \<Rightarrow> int \<times> nat \<times> nat" where
  "civil_of_era era doe =
     civil_of_year era doe ((doe - doe div 1460 + doe div 36524 - doe div 146096) div 365)"

definition civil_from_days :: "int \<Rightarrow> int \<times> nat \<times> nat" where
  "civil_from_days z = civil_of_era ((z + 719468) div 146097) ((z + 719468) mod 146097)"

definition iso_year :: "int \<Rightarrow> string" where
  "iso_year y =
     (if 0 \<le> y \<and> y \<le> 9999 then pad 4 (nat y)
      else (if y < 0 then CHR ''-'' else CHR ''+'') # pad 6 (nat \<bar>y\<bar>))"

fun iso_date :: "int \<times> nat \<times> nat \<Rightarrow> string" where
  "iso_date (y, m, d) = iso_year y @ ''-'' @ pad 2 m @ ''-'' @ pad 2 d"

definition iso_time :: "nat \<Rightarrow> string" where
  "iso_time r =
     pad 2 (r div 3600000) @ '':'' @ pad 2 (r div 60000 mod 60) @ '':''
       @ pad 2 (r div 1000 mod 60) @ ''.'' @ pad 3 (r mod 1000)"

text \<open>
  \<open>new Date(ms).toISOString()\<close>: a time value beyond 8.64e15 milliseconds on either
  side of the epoch is an invalid date, for which \<open>toISOString\<close> throws a RangeError.
\<close>

definition toISOString :: "int \<Rightarrow> js_error + string" where
  "toISOString ms =
     (if \<bar>ms\<bar> > 8640000000000000 then Inl RangeError
      else Inr (iso_date (civil_from_days (ms div 86400000)) @ ''T''
                @ iso_time (nat (ms mod 86400000)) @ ''Z''))"

text \<open>The time values \<open>toISOString\<close> renders.\<close>

definition renderable :: "int \<Rightarrow> bool" where
  "renderable ms = (\<bar>ms\<bar> \<le> 8640000000000000)"

section \<open>config/groups.js\<close>

record group_config =
  group_id :: string
  group_name :: string
  university :: string
  categories :: "string list"
  active :: bool

text \<open>The module-level registry: an object literal with one (uncommented) entry.\<close>

definition universityGroups :: "(string \<times> group_config) list" where
  "universityGroups =
     [(''TOP_GS'',
       \<lparr>group_id = ''120363025923230723@g.us'', group_name = ''Top Gs'',
        university = ''NEU'', categories = [''general''], active = True\<rparr>)]"

text \<open>
  \<open>universityGroups[groupName.toUpperCase()] || null\<close>: every value of the registry is
  an object, hence truthy; a missing key reads as \<open>undefined\<close> and gives \<open>null\<close>,
  which is \<^const>\<open>None\<close> here.
\<close>

definition getGroupByName :: "string \<Rightarrow> group_config option" where
  "getGroupByName groupName = map_of universityGroups (toUpperCase groupName)"

definition getAllActiveGroups :: "group_config list" where
  "getAllActiveGroups = filter active (map snd universityGroups)"

definition getGroupsByUniversity :: "string \<Rightarrow> group_config list" where
  "getGroupsByUniversity u =
     filter (\<lambda>g. toLowerCase (university g) = toLowerCase u \<and> active g)
       (map snd universityGroups)"

text \<open>
  The names of the properties every object literal inherits from \<open>Object.prototype\<close>.
  A lookup by one of these names would not read as \<open>undefined\<close>; each of them contains
  a lower-case letter, so an upper-cased name never is one of them.
\<close>

definition object_prototype_keys :: "string list" where
  "object_prototype_keys =
     [''constructor'', ''hasOwnProperty'', ''isPrototypeOf'', ''propertyIsEnumerable'',
      ''toLocaleString'', ''toString'', ''valueOf'', ''__proto__'', ''__defineGetter__'',
      ''__defineSetter__'', ''__lookupGetter__'', ''__lookupSetter__'']"

text \<open>
  Two names differ only in letter case: they have the same length and, position by
  position, the same character or the two cases of one letter.
\<close>

definition case_variant :: "char \<Rightarrow> char \<Rightarrow> bool" where
  "case_variant c d =
     (c = d \<or> (is_lower c \<and> d = upper_char c) \<or> (is_upper c \<and> d = lower_char c))"

definition differ_only_in_case :: "string \<Rightarrow> string \<Rightarrow> bool" where
  "differ_only_in_case a b = list_all2 case_variant a b"

section \<open>scrapers/group-scraper.js\<close>

subsection \<open>What whatsapp-web.js hands to the scraper\<close>

record wa_message =
  wm_serialized :: string
  wm_timestamp :: int
  wm_from :: string
  wm_author :: "string option"
  wm_body :: "string option"
  wm_type :: string
  wm_hasMedia :: "bool option"

record participant =
  p_serialized :: string
  p_user :: string
  p_isAdmin :: "bool option"

record contact =
  c_name :: "string option"
  c_pushname :: "string option"

text \<open>\<open>fetched\<close> is what \<open>chat.fetchMessages({limit: 100})\<close> resolves to, \<^const>\<open>None\<close> when it throws.\<close>

record chat =
  chat_serialized :: string
  chat_name :: string
  chat_description :: "string option"
  chat_participants :: "participant list"
  fetched :: "wa_message list option"

text \<open>
  \<open>info\<close> is set once the client is ready; \<open>getChatById\<close> and \<open>getContactById\<close> are
  the lookups of the library, \<^const>\<open>None\<close> where the call throws.
\<close>

record client =
  info :: bool
  getChatById :: "string \<rightharpoonup> chat"
  getContactById :: "string \<rightharpoonup> contact"

subsection \<open>What the scraper produces\<close>

record message =
  msg_id :: string
  timestamp :: int
  msg_from :: string
  author :: string
  body :: string
  msg_type :: string
  hasMedia :: bool

record member =
  member_id :: string
  phone :: string
  member_name :: string
  isAdmin :: bool

record time_range =
  earliest :: string
  latest :: string

text \<open>
  The values a property of the \<open>types\<close> object of \<open>countMessageTypes\<close> holds: a
  number, or the string that \<open>+\<close> builds once an operand is not a number.
\<close>

datatype js_value = Num nat | Str string

record statistics =
  totalMessages :: nat
  messageTypes :: "(string \<times> js_value) list"
  timeRange :: "time_range option"

record group_info =
  gi_id :: string
  gi_name :: string
  gi_description :: "string option"
  participantCount :: nat
  scrapedAt :: string

record group_data =
  groupInfo :: group_info
  members :: "member list"
  messages :: "message list"
  stats :: statistics

subsection \<open>Statistics\<close>

text \<open>
  The \<open>types\<close> object of \<open>countMessageTypes\<close> starts as \<open>{}\<close>: the list of its own
  properties in insertion order, on top of what it inherits from \<open>Object.prototype\<close>.

  Reading \<open>types[k]\<close> gives the own property, else the inherited one, else
  \<open>undefined\<close>. An inherited property is a function (or the prototype object itself for
  \<open>__proto__\<close>): it is truthy, and \<open>+\<close> takes it by its string conversion, so it is read
  here as that non-empty string, as Node renders it.
\<close>

definition inherited_text :: "string \<Rightarrow> string" where
  "inherited_text k =
     (if k = ''__proto__'' then ''[object Object]''
      else ''function '' @ (if k = ''constructor'' then ''Object'' else k)
             @ ''() { [native code] }'')"

definition get_property :: "(string \<times> js_value) list \<Rightarrow> string \<Rightarrow> js_value option" where
  "get_property obj k =
     (case map_of obj k of
        Some v \<Rightarrow> Some v
      | None \<Rightarrow> if k \<in> set object_prototype_keys then Some (Str (inherited_text k)) else None)"

text \<open>
  \<open>(v || 0) + 1\<close>: \<open>undefined\<close>, 0 and the empty string are falsy and give 0 + 1; a
  number gives its successor; a non-empty string gives the string followed by "1".
\<close>

definition or_zero_plus_one :: "js_value option \<Rightarrow> js_value" where
  "or_zero_plus_one v =
     (case v of
        None \<Rightarrow> Num (0 + 1)
      | Some (Num n) \<Rightarrow> Num ((if n = 0 then 0 else n) + 1)
      | Some (Str t) \<Rightarrow> if t = [] then Num (0 + 1) else Str (t @ ''1''))"

text \<open>
  Writing \<open>types[k] = v\<close>: the own property \<open>k\<close> is updated where it is, or added at
  the end. For \<open>__proto__\<close> the assignment runs the inherited setter, which ignores a
  value that is neither an object nor \<open>null\<close>: nothing is stored.
\<close>

fun set_own :: "string \<Rightarrow> js_value \<Rightarrow> (string \<times> js_value) list \<Rightarrow> (string \<times> js_value) list" where
  "set_own k v [] = [(k, v)]"
| "set_own k v ((k', w) # rest) =
     (if k' = k then (k', v) # rest else (k', w) # set_own k v rest)"

definition set_property :: "(string \<times> js_value) list \<Rightarrow> string \<Rightarrow> js_value \<Rightarrow> (string \<times> js_value) list" where
  "set_property obj k v = (if k = ''__proto__'' then obj else set_own k v obj)"

text \<open>\<open>types[msg.type] = (types[msg.type] || 0) + 1\<close>, for the type tag \<open>k\<close>.\<close>

definition bump :: "string \<Rightarrow> (string \<times> js_value) list \<Rightarrow> (string \<times> js_value) list" where
  "bump k types = set_property types k (or_zero_plus_one (get_property types k))"

definition countMessageTypes :: "message list \<Rightarrow> (string \<times> js_value) list" where
  "countMessageTypes msgs = foldl (\<lambda>types msg. bump (msg_type msg) types) [] msgs"

text \<open>
  \<open>getMessageTimeRange\<close>: \<open>null\<close> for no message; otherwise the timestamps are sorted
  with the default \<open>sort()\<close> and the first and the last are rendered by \<open>toISOString\<close>.
\<close>

definition getMessageTimeRange :: "message list \<Rightarrow> js_error + time_range option" where
  "getMessageTimeRange msgs =
     (if length msgs = 0 then Inr None
      else
        let timestamps = sort_js (map timestamp msgs) in
        case toISOString (timestamps ! 0 * 1000) of
          Inl e \<Rightarrow> Inl e
        | Inr e \<Rightarrow>
            (case toISOString (timestamps ! (length timestamps - 1) * 1000) of
               Inl err \<Rightarrow> Inl err
             | Inr l \<Rightarrow> Inr (Some \<lparr>earliest = e, latest = l\<rparr>)))"

definition generateStatistics :: "message list \<Rightarrow> js_error + statistics" where
  "generateStatistics msgs =
     (let n = length msgs; types = countMessageTypes msgs in
      case getMessageTimeRange msgs of
        Inl e \<Rightarrow> Inl e
      | Inr tr \<Rightarrow> Inr \<lparr>totalMessages = n, messageTypes = types, timeRange = tr\<rparr>)"

subsection \<open>Extraction\<close>

text \<open>\<open>a || b\<close> on a string that may be undefined: the empty string is falsy too.\<close>

definition or_string :: "string option \<Rightarrow> string \<Rightarrow> string" where
  "or_string a b = (case a of None \<Rightarrow> b | Some s \<Rightarrow> if s = [] then b else s)"

definition or_false :: "bool option \<Rightarrow> bool" where
  "or_false a = (case a of None \<Rightarrow> False | Some v \<Rightarrow> v)"

text \<open>
  \<open>processMembers\<close>: a participant whose contact lookup throws is skipped (the
  \<open>catch\<close> only warns); the pause between two lookups changes no value.
\<close>

fun processMembers :: "client \<Rightarrow> participant list \<Rightarrow> member list" where
  "processMembers cl [] = []"
| "processMembers cl (p # ps) =
     (case getContactById cl (p_serialized p) of
        None \<Rightarrow> processMembers cl ps
      | Some c \<Rightarrow>
          \<lparr>member_id = p_serialized p, phone = p_user p,
           member_name = or_string (c_name c) (or_string (c_pushname c) ''Unknown''),
           isAdmin = or_false (p_isAdmin p)\<rparr> # processMembers cl ps)"

definition extractMessages :: "chat \<Rightarrow> message list" where
  "extractMessages c =
     (case fetched c of
        None \<Rightarrow> []
      | Some msgs \<Rightarrow>
          map (\<lambda>msg. \<lparr>msg_id = wm_serialized msg, timestamp = wm_timestamp msg,
                      msg_from = wm_from msg, author = or_string (wm_author msg) (wm_from msg),
                      body = or_string (wm_body msg) [], msg_type = wm_type msg,
                      hasMedia = or_false (wm_hasMedia msg)\<rparr>) msgs)"

text \<open>\<open>extractGroupData\<close>; \<open>now\<close> is the instant \<open>new Date()\<close> reads, in milliseconds.\<close>

definition extractGroupData :: "client \<Rightarrow> int \<Rightarrow> chat \<Rightarrow> group_config \<Rightarrow> js_error + group_data" where
  "extractGroupData cl now c groupConfig =
     (case toISOString now of
        Inl e \<Rightarrow> Inl e
      | Inr stamp \<Rightarrow>
          let gi = \<lparr>gi_id = chat_serialized c, gi_name = chat_name c,
                      gi_description = chat_description c,
                      participantCount = length (chat_participants c), scrapedAt = stamp\<rparr>;
              ms = processMembers cl (chat_participants c);
              msgs = extractMessages c
          in case generateStatistics msgs of
               Inl e \<Rightarrow> Inl e
             | Inr st \<Rightarrow> Inr \<lparr>groupInfo = gi, members = ms, messages = msgs, stats = st\<rparr>)"

subsection \<open>scrapeGroup\<close>

text \<open>
  The scraper object: its output directory, its client, the group name parked by a call
  that came before the client was ready, whether the output directory can be written,
  and the files written so far (directory, file name, content).
\<close>

record scraper =
  outputDir :: string
  wa_client :: client
  pendingGroupScrape :: "string option"
  disk_writable :: bool
  written :: "(string \<times> string \<times> group_data) list"

text \<open>
  A call on a client that is not ready parks the name and returns a promise that the
  \<open>ready\<close> handler or a 30 second timer settles later: \<open>Waiting\<close>.
\<close>

datatype scrape_outcome = Resolved group_data | Rejected js_error | Waiting

text \<open>
  \<open>scrapeGroup(groupName)\<close>; \<open>t_scraped\<close> and \<open>t_saved\<close> are the two instants
  \<open>new Date()\<close> reads, for \<open>scrapedAt\<close> and for the file name. The \<open>catch\<close> logs
  and rethrows, so every error of the body is the error of the call.
\<close>

definition scrapeGroup :: "scraper \<Rightarrow> int \<Rightarrow> int \<Rightarrow> string \<Rightarrow> scrape_outcome \<times> scraper" where
  "scrapeGroup this t_scraped t_saved groupName =
     (if \<not> info (wa_client this) then (Waiting, this\<lparr>pendingGroupScrape := Some groupName\<rparr>)
      else
        case getGroupByName groupName of
          None \<Rightarrow> (Rejected (GroupNotFound groupName), this)
        | Some groupConfig \<Rightarrow>
            (case getChatById (wa_client this) (group_id groupConfig) of
               None \<Rightarrow> (Rejected (ChatUnavailable (group_id groupConfig)), this)
             | Some c \<Rightarrow>
                 (case extractGroupData (wa_client this) t_scraped c groupConfig of
                    Inl e \<Rightarrow> (Rejected e, this)
                  | Inr groupData \<Rightarrow>
                      (case toISOString t_saved of
                         Inl e \<Rightarrow> (Rejected e, this)
                       | Inr stamp \<Rightarrow>
                           let filename = toLowerCase groupName @ ''_data_''
                                 @ takeWhile (\<lambda>ch. ch \<noteq> CHR ''T'') stamp @ ''.json''
                           in if disk_writable this
                              then (Resolved groupData,
                                    this\<lparr>written := written this @ [(outputDir this, filename, groupData)]\<rparr>)
                              else (Rejected WriteFailed, this)))))"

text \<open>\<open>scrapeGroupByName\<close>, the alias the command line calls.\<close>

definition scrapeGroupByName :: "scraper \<Rightarrow> int \<Rightarrow> int \<Rightarrow> string \<Rightarrow> scrape_outcome \<times> scraper" where
  "scrapeGroupByName this t_scraped t_saved groupName = scrapeGroup this t_scraped t_saved groupName"

text \<open>
  A scraper whose client is ready and reaches a chat under every identifier, used to
  run \<open>scrapeGroup\<close> on concrete names.
\<close>

definition sample_message :: "string \<Rightarrow> int \<Rightarrow> string \<Rightarrow> wa_message" where
  "sample_message i t ty =
     \<lparr>wm_serialized = i, wm_timestamp = t, wm_from = ''15550001111@c.us'', wm_author = None,
      wm_body = Some ''Looking for a roommate'', wm_type = ty, wm_hasMedia = None\<rparr>"

definition sample_chat :: "string \<Rightarrow> chat" where
  "sample_chat i =
     \<lparr>chat_serialized = i, chat_name = ''Housing'', chat_description = None,
      chat_participants = [\<lparr>p_serialized = ''15550001111@c.us'', p_user = ''15550001111'',
                              p_isAdmin = None\<rparr>],
      fetched = Some [sample_message ''m1'' 1691398200 ''chat'',
                      sample_message ''m2'' 1691398260 ''image'',
                      sample_message ''m3'' 1691398320 ''chat'']\<rparr>"

definition ready_scraper :: scraper where
  "ready_scraper =
     \<lparr>outputDir = ''outputs'',
      wa_client = \<lparr>info = True, getChatById = (\<lambda>i. Some (sample_chat i)),
                   getContactById = (\<lambda>i. Some \<lparr>c_name = None, c_pushname = Some ''Sam''\<rparr>)\<rparr>,
      pendingGroupScrape = None, disk_writable = True, written = []\<rparr>"

definition message_at :: "int \<Rightarrow> message" where
  "message_at t =
     \<lparr>msg_id = ''m'', timestamp = t, msg_from = ''15550001111@c.us'',
      author = ''15550001111@c.us'', body = ''hi'', msg_type = ''chat'', hasMedia = False\<rparr>"

definition message_of_type :: "string \<Rightarrow> message" where
  "message_of_type ty =
     \<lparr>msg_id = ''m'', timestamp = 1691398200, msg_from = ''15550001111@c.us'',
      author = ''15550001111@c.us'', body = ''hi'', msg_type = ty, hasMedia = False\<rparr>"

definition sample_messages :: "message list" where
  "sample_messages = extractMessages (sample_chat ''120363025923230723@g.us'')"

section \<open>The deduplication core of the backend\<close>

text \<open>
  The backend that ingests the scraped messages (normalizer, group-scoped deduplicator,
  canonical aggregator) is described by the specification only. The definitions of this
  section follow its sections 3, 4.1, 4.2 and 4.3. An input tuple is well-formed by its
  type (group, sender and timestamp are present), so the rejection of malformed tuples at
  the ingestion boundary has no branch here.
\<close>

subsection \<open>Normalizer\<close>

text \<open>
  Modelled from the spec: the whitespace test used by the Normalizer (4.1). The ASCII
  whitespace characters: tab, line feed, vertical tab, form feed, carriage return, space.
\<close>

definition is_space :: "char \<Rightarrow> bool" where
  "is_space c = ((of_char c :: nat) \<in> {9, 10, 11, 12, 13, 32})"

text \<open>Modelled from the spec: the Normalizer (4.1) "strips leading/trailing whitespace".\<close>

definition strip :: "string \<Rightarrow> string" where
  "strip s = rev (dropWhile is_space (rev (dropWhile is_space s)))"

text \<open>
  Modelled from the spec: the Normalizer (4.1) "collapses internal whitespace runs". A
  whitespace character followed by another one is dropped, the last one of a run
  becomes a single space.
\<close>

fun collapse_ws :: "string \<Rightarrow> string" where
  "collapse_ws [] = []"
| "collapse_ws [c] = [if is_space c then CHR '' '' else c]"
| "collapse_ws (c # d # cs) =
     (if is_space c
      then (if is_space d then collapse_ws (d # cs) else CHR '' '' # collapse_ws (d # cs))
      else c # collapse_ws (d # cs))"

text \<open>
  Modelled from the spec: the fingerprint of the Normalizer (4.1), "a deterministic,
  collision-resistant digest of the normalized text"; text that is empty after
  normalization has "a distinct, explicitly tagged fingerprint category".
\<close>

datatype 'd fingerprint = EmptyText | Digest 'd

text \<open>
  Modelled from the spec: \<open>normalize(rawText) -> (normalizedText, fingerprint)\<close> of the
  Normalizer (4.1): it "strips leading/trailing whitespace, collapses internal
  whitespace runs, lowercases, and removes ingestion-irrelevant noise (e.g., invisible
  formatting markers)", in this order. The spec fixes neither the set of noise
  characters nor the digest function: both are parameters.
\<close>

definition normalize_text :: "(char \<Rightarrow> bool) \<Rightarrow> (string \<Rightarrow> 'd) \<Rightarrow> string \<Rightarrow> string \<times> 'd fingerprint" where
  "normalize_text noise digest rawText =
     (let normalizedText = filter (\<lambda>c. \<not> noise c) (toLowerCase (collapse_ws (strip rawText)))
      in (normalizedText,
          if normalizedText = [] then EmptyText else Digest (digest normalizedText)))"

text \<open>
  Two raw texts differ only in letter case, in leading or trailing whitespace, or in
  the length (or the characters) of internal whitespace runs: the equivalence generated
  by changing the case of letters, adding a whitespace character in front or at the
  end, and adding or replacing a whitespace character next to one.
\<close>

inductive differ_only_in_whitespace_and_case :: "string \<Rightarrow> string \<Rightarrow> bool" where
  same: "differ_only_in_whitespace_and_case a a"
| swap: "differ_only_in_whitespace_and_case a b \<Longrightarrow> differ_only_in_whitespace_and_case b a"
| chain: "differ_only_in_whitespace_and_case a b \<Longrightarrow> differ_only_in_whitespace_and_case b c
          \<Longrightarrow> differ_only_in_whitespace_and_case a c"
| letter_case: "differ_only_in_case a b \<Longrightarrow> differ_only_in_whitespace_and_case a b"
| leading: "is_space w \<Longrightarrow> differ_only_in_whitespace_and_case a (w # a)"
| trailing: "is_space w \<Longrightarrow> differ_only_in_whitespace_and_case a (a @ [w])"
| run_length: "is_space w \<Longrightarrow> is_space w' \<Longrightarrow>
     differ_only_in_whitespace_and_case (a @ w # b) (a @ w # w' # b)"
| run_char: "is_space w \<Longrightarrow> is_space w' \<Longrightarrow>
     differ_only_in_whitespace_and_case (a @ w # b) (a @ w' # b)"

subsection \<open>Data model\<close>

text \<open>
  Modelled from the spec: RawMessage (section 3), "one ingested occurrence", with the
  source key of the persisted layout (section 6: "RawMessage table keyed by (group,
  sourceKey) with fingerprint and per-group count columns").
\<close>

record 'd raw_message =
  rm_group :: string
  rm_source_key :: string
  rm_sender :: string
  rm_original :: string
  rm_normalized :: string
  rm_fingerprint :: "'d fingerprint"
  rm_timestamp :: int
  rm_occurrence :: nat

text \<open>Modelled from the spec: CanonicalMessage (section 3), "one fingerprint's global identity".\<close>

record 'd canonical_message =
  cm_fingerprint :: "'d fingerprint"
  cm_text :: string
  cm_total :: nat
  cm_groups :: "string list"
  cm_first_seen :: int
  cm_last_seen :: int

text \<open>
  Modelled from the spec: the persisted state (section 6). The RawMessage table is the
  list of its rows in insertion order; the CanonicalMessage table is "keyed by
  fingerprint", a store-level constraint, hence a map.
\<close>

record 'd store =
  raw_table :: "'d raw_message list"
  canonical_table :: "'d fingerprint \<rightharpoonup> 'd canonical_message"

definition empty_store :: "'d store" where
  "empty_store = \<lparr>raw_table = [], canonical_table = Map.empty\<rparr>"

text \<open>
  Modelled from the spec: the errors of section 7 that the deduplicator and the
  aggregator raise: \<open>ConflictError\<close> with the offending group and source key, and
  \<open>NotFoundError\<close> for an unknown fingerprint.
\<close>

datatype store_error = ConflictError string string | NotFoundError

subsection \<open>Group-scoped deduplicator and canonical aggregator\<close>

text \<open>Modelled from the spec: the lookup of "an identical (groupId, sourceKey)" (4.2).\<close>

definition find_by_source_key :: "'d raw_message list \<Rightarrow> string \<Rightarrow> string \<Rightarrow> 'd raw_message option" where
  "find_by_source_key rows g k = find (\<lambda>r. rm_group r = g \<and> rm_source_key r = k) rows"

text \<open>
  Modelled from the spec: the "existing RawMessage with the same (groupId, fingerprint)
  \<open>latest\<close> row used for counting" (4.2): the row stored last.
\<close>

definition latest_row :: "'d raw_message list \<Rightarrow> string \<Rightarrow> 'd fingerprint \<Rightarrow> 'd raw_message option" where
  "latest_row rows g f = find (\<lambda>r. rm_group r = g \<and> rm_fingerprint r = f) (rev rows)"

text \<open>
  Modelled from the spec: the per-group occurrence count of a fingerprint, "how many
  times this fingerprint has been seen in this group so far" (section 3), read from the
  latest row; 0 when the group has no row with the fingerprint.
\<close>

definition group_count :: "'d raw_message list \<Rightarrow> 'd fingerprint \<Rightarrow> string \<Rightarrow> nat" where
  "group_count rows f g = (case latest_row rows g f of None \<Rightarrow> 0 | Some r \<Rightarrow> rm_occurrence r)"

text \<open>
  Modelled from the spec: "occurrence count incremented in place when the same
  fingerprint recurs in the same group" (section 3): the counter of the latest row of
  the group and fingerprint goes up by one.
\<close>

fun increment_first :: "string \<Rightarrow> 'd fingerprint \<Rightarrow> 'd raw_message list \<Rightarrow> 'd raw_message list" where
  "increment_first g f [] = []"
| "increment_first g f (r # rs) =
     (if rm_group r = g \<and> rm_fingerprint r = f
      then r\<lparr>rm_occurrence := rm_occurrence r + 1\<rparr> # rs
      else r # increment_first g f rs)"

definition increment_latest :: "string \<Rightarrow> 'd fingerprint \<Rightarrow> 'd raw_message list \<Rightarrow> 'd raw_message list" where
  "increment_latest g f rows = rev (increment_first g f (rev rows))"

text \<open>
  Modelled from the spec: \<open>reconcile(fingerprint) -> CanonicalMessage\<close> of the Canonical
  Aggregator (4.3): "total occurrence count = sum over all groups of their per-group
  occurrence counts; group set = union of groups containing that fingerprint; last-seen
  = max timestamp observed", the representative text being "the normalized text of the
  earliest-seen occurrence". A fingerprint without any row is unknown.
\<close>

definition reconcile :: "'d fingerprint \<Rightarrow> 'd store \<Rightarrow> (store_error + 'd canonical_message) \<times> 'd store" where
  "reconcile f st =
     (let rows = filter (\<lambda>r. rm_fingerprint r = f) (raw_table st) in
      if rows = [] then (Inl NotFoundError, st)
      else
        let groups = remdups (map rm_group rows);
            earliest_row = arg_min_list rm_timestamp rows;
            c = \<lparr>cm_fingerprint = f,
                 cm_text = rm_normalized earliest_row,
                 cm_total = sum_list (map (group_count (raw_table st) f) groups),
                 cm_groups = groups,
                 cm_first_seen = rm_timestamp earliest_row,
                 cm_last_seen = Max (set (map rm_timestamp rows))\<rparr>
        in (Inr c, st\<lparr>canonical_table := (canonical_table st)(f \<mapsto> c)\<rparr>))"

text \<open>
  Modelled from the spec: \<open>ingest(groupId, senderId, rawText, timestamp, sourceKey) ->
  RawMessage\<close> of the Group-Scoped Deduplicator (4.2). "If an identical (groupId,
  sourceKey) already exists, the call is a no-op re-ingestion (idempotent) and returns
  the existing record unchanged", unless the source key was recorded with another
  fingerprint, which "surfaces a ConflictError". Otherwise the group's counter for the
  fingerprint is incremented, the new row is stored with it (count 1 for the first
  occurrence in the group), and the Canonical Aggregator is triggered for the
  fingerprint.
\<close>

definition ingest ::
  "(char \<Rightarrow> bool) \<Rightarrow> (string \<Rightarrow> 'd) \<Rightarrow> 'd store \<Rightarrow> string \<Rightarrow> string \<Rightarrow> string \<Rightarrow> int \<Rightarrow> string
     \<Rightarrow> (store_error + 'd raw_message) \<times> 'd store" where
  "ingest noise digest st groupId senderId rawText ts sourceKey =
     (let (normalizedText, fp) = normalize_text noise digest rawText in
      case find_by_source_key (raw_table st) groupId sourceKey of
        Some existing \<Rightarrow>
          if rm_fingerprint existing = fp then (Inr existing, st)
          else (Inl (ConflictError groupId sourceKey), st)
      | None \<Rightarrow>
          let n = group_count (raw_table st) fp groupId;
              row = \<lparr>rm_group = groupId, rm_source_key = sourceKey, rm_sender = senderId,
                     rm_original = rawText, rm_normalized = normalizedText,
                     rm_fingerprint = fp, rm_timestamp = ts, rm_occurrence = n + 1\<rparr>;
              st' = st\<lparr>raw_table := increment_latest groupId fp (raw_table st) @ [row]\<rparr>
          in (Inr row, snd (reconcile fp st')))"

text \<open>
  Modelled from the spec: the invariant of RawMessage (section 3) that the store keeps
  as a uniqueness constraint on (group, sourceKey), and the rows a source key has.
\<close>

definition source_keys_unique :: "'d store \<Rightarrow> bool" where
  "source_keys_unique st = distinct (map (\<lambda>r. (rm_group r, rm_source_key r)) (raw_table st))"

definition rows_with_source_key :: "'d store \<Rightarrow> string \<Rightarrow> string \<Rightarrow> 'd raw_message list" where
  "rows_with_source_key st g k =
     filter (\<lambda>r. rm_group r = g \<and> rm_source_key r = k) (raw_table st)"

text \<open>
  The scenario of the spec: "lost my charger" ingested into group A, and the same
  export line ingested again.
\<close>

definition first_ingest :: "(store_error + string raw_message) \<times> string store" where
  "first_ingest = ingest (\<lambda>c. False) (\<lambda>t. t) empty_store ''A'' ''ann'' ''Lost my  charger'' 100 ''line-1''"

section \<open>Evaluation on literals\<close>

lemma replicate_numeral: "replicate (numeral k) x = x # replicate (pred_numeral k) x"
  by (simp add: numeral_eq_Suc)

lemmas eval_number = number_to_string_def nat_digits.simps digit_char_def

lemmas eval_iso = toISOString_def civil_from_days_def civil_of_era_def civil_of_year_def
  civil_of_day_def civil_of_month_def iso_year_def iso_time_def pad_def replicate_numeral
  eval_number

section \<open>Group lookup\<close>

lemma upper_char_idem: "upper_char (upper_char c) = upper_char c"
  by (auto simp: upper_char_def is_lower_def Let_def)

lemma upper_lower_char: "is_upper c \<Longrightarrow> upper_char (lower_char c) = upper_char c"
  by (auto simp: upper_char_def lower_char_def is_lower_def is_upper_def Let_def)

lemma case_variant_upper: "case_variant c d \<Longrightarrow> upper_char c = upper_char d"
  by (auto simp: case_variant_def upper_char_idem upper_lower_char)

lemma differ_only_in_case_upper:
  "differ_only_in_case a b \<Longrightarrow> toUpperCase a = toUpperCase b"
  unfolding differ_only_in_case_def toUpperCase_def
  by (induction a b rule: list_all2_induct) (auto dest: case_variant_upper)

text \<open>
  An upper-cased name holds no lower-case letter, so it is none of the names inherited
  from \<open>Object.prototype\<close>: the lookup in the registry object is the lookup among the
  registry's own keys.
\<close>

lemma upper_char_not_lower: "\<not> is_lower (upper_char c)"
  by (auto simp: upper_char_def is_lower_def Let_def)

lemma toUpperCase_no_lower: "c \<in> set (toUpperCase s) \<Longrightarrow> \<not> is_lower c"
  by (auto simp: toUpperCase_def upper_char_not_lower)

lemma prototype_keys_have_lower:
  "k \<in> set object_prototype_keys \<Longrightarrow> \<exists>c \<in> set k. is_lower c"
  by (auto simp: object_prototype_keys_def is_lower_def)

lemma toUpperCase_not_inherited: "toUpperCase s \<notin> set object_prototype_keys"
  using prototype_keys_have_lower toUpperCase_no_lower by blast

text \<open>
  C10. The lookup does not depend on the letter case of the name: two names that differ
  only in letter case get the same answer. It is total: a name whose upper-case form is
  no key of the registry gets \<open>null\<close>; nothing is thrown for any string.
\<close>

theorem getGroupByName_case_insensitive_total:
  "(differ_only_in_case a b \<longrightarrow> getGroupByName a = getGroupByName b) \<and>
   (toUpperCase name \<notin> fst ` set universityGroups \<longrightarrow> getGroupByName name = None)"
proof (intro conjI impI)
  assume "differ_only_in_case a b"
  then have "toUpperCase a = toUpperCase b" by (rule differ_only_in_case_upper)
  then show "getGroupByName a = getGroupByName b" by (simp add: getGroupByName_def)
next
  assume "toUpperCase name \<notin> fst ` set universityGroups"
  then show "getGroupByName name = None"
    unfolding getGroupByName_def by (simp add: map_of_eq_None_iff)
qed

theorem getGroupByName_case_insensitive_total_witness:
  "differ_only_in_case ''top_gs'' ''Top_Gs'' \<and>
   getGroupByName ''top_gs'' = getGroupByName ''Top_Gs'' \<and>
   getGroupByName ''Top_Gs'' =
     Some \<lparr>group_id = ''120363025923230723@g.us'', group_name = ''Top Gs'',
           university = ''NEU'', categories = [''general''], active = True\<rparr> \<and>
   toUpperCase ''mit_ai_hacks'' \<notin> fst ` set universityGroups \<and>
   getGroupByName ''mit_ai_hacks'' = None"
proof -
  have 1: "differ_only_in_case ''top_gs'' ''Top_Gs''" by code_simp
  have 2: "toUpperCase ''mit_ai_hacks'' \<notin> fst ` set universityGroups" by code_simp
  have 3: "getGroupByName ''Top_Gs'' =
     Some \<lparr>group_id = ''120363025923230723@g.us'', group_name = ''Top Gs'',
           university = ''NEU'', categories = [''general''], active = True\<rparr>"
    by code_simp
  from getGroupByName_case_insensitive_total [of "''top_gs''" "''Top_Gs''" "''mit_ai_hacks''"]
    1 2 3
  show ?thesis by blast
qed

section \<open>Statistics\<close>

lemma get_property_own:
  "k \<notin> set object_prototype_keys \<Longrightarrow> get_property obj k = map_of obj k"
  by (simp add: get_property_def split: option.splits)

lemma not_inherited_not_proto: "k \<notin> set object_prototype_keys \<Longrightarrow> k \<noteq> ''__proto__''"
  by (auto simp: object_prototype_keys_def)

lemma map_of_set_own: "map_of (set_own k v xs) t = (if t = k then Some v else map_of xs t)"
  by (induction xs) auto

lemma keys_set_own:
  "map fst (set_own k v xs) = (if k \<in> fst ` set xs then map fst xs else map fst xs @ [k])"
  by (induction k v xs rule: set_own.induct) (auto simp: image_iff)

lemma bump_own:
  "k \<notin> set object_prototype_keys \<Longrightarrow> bump k xs = set_own k (or_zero_plus_one (map_of xs k)) xs"
  by (simp add: bump_def set_property_def get_property_own not_inherited_not_proto)

lemma map_of_bump:
  "k \<notin> set object_prototype_keys \<Longrightarrow>
   map_of (bump k xs) t = (if t = k then Some (or_zero_plus_one (map_of xs k)) else map_of xs t)"
  by (simp add: bump_own map_of_set_own)

lemma distinct_bump:
  "k \<notin> set object_prototype_keys \<Longrightarrow> distinct (map fst xs) \<Longrightarrow> distinct (map fst (bump k xs))"
  by (simp add: bump_own keys_set_own)

text \<open>Where every property is a number, a bump by an own key adds one to their sum.\<close>

lemma sum_set_own:
  "map snd xs = map Num cs \<Longrightarrow>
   \<exists>cs'. map snd (set_own k (or_zero_plus_one (map_of xs k)) xs) = map Num cs'
          \<and> sum_list cs' = Suc (sum_list cs)"
proof (induction xs arbitrary: cs)
  case Nil
  then have "map snd (set_own k (or_zero_plus_one (map_of [] k)) []) = map Num [1]"
    by (simp add: or_zero_plus_one_def)
  moreover from Nil have "sum_list [1] = Suc (sum_list cs)" by simp
  ultimately show ?case by blast
next
  case (Cons x xs)
  obtain k' w where x: "x = (k', w)" by (cases x)
  from Cons.prems obtain c cs0 where cs: "cs = c # cs0" and w: "w = Num c"
    and rest: "map snd xs = map Num cs0"
    by (cases cs) (auto simp: x)
  show ?case
  proof (cases "k' = k")
    case True
    then have "map snd (set_own k (or_zero_plus_one (map_of (x # xs) k)) (x # xs))
        = map Num (Suc c # cs0)"
      by (simp add: x w rest or_zero_plus_one_def)
    moreover have "sum_list (Suc c # cs0) = Suc (sum_list cs)" by (simp add: cs)
    ultimately show ?thesis by blast
  next
    case False
    from Cons.IH [OF rest] obtain cs' where
      "map snd (set_own k (or_zero_plus_one (map_of xs k)) xs) = map Num cs'"
      and "sum_list cs' = Suc (sum_list cs0)"
      by blast
    with False have "map snd (set_own k (or_zero_plus_one (map_of (x # xs) k)) (x # xs))
        = map Num (c # cs')" and "sum_list (c # cs') = Suc (sum_list cs)"
      by (simp_all add: x w cs)
    then show ?thesis by blast
  qed
qed

lemma countMessageTypes_snoc:
  "countMessageTypes (msgs @ [m]) = bump (msg_type m) (countMessageTypes msgs)"
  by (simp add: countMessageTypes_def)

lemma countMessageTypes_own:
  assumes "\<forall>m \<in> set msgs. msg_type m \<notin> set object_prototype_keys"
  shows "(\<exists>counts. map snd (countMessageTypes msgs) = map Num counts
            \<and> sum_list counts = length msgs)
       \<and> distinct (map fst (countMessageTypes msgs))
       \<and> (\<forall>t. map_of (countMessageTypes msgs) t =
              (let n = length (filter (\<lambda>m. msg_type m = t) msgs)
               in if n = 0 then None else Some (Num n)))"
  using assms
proof (induction msgs rule: rev_induct)
  case Nil
  have "map snd (countMessageTypes []) = map Num []" and "sum_list ([] :: nat list) = length ([] :: message list)"
    by (simp_all add: countMessageTypes_def)
  then have "\<exists>counts. map snd (countMessageTypes []) = map Num counts
      \<and> sum_list counts = length ([] :: message list)"
    by blast
  then show ?case by (simp add: countMessageTypes_def)
next
  case (snoc m msgs)
  let ?C = "countMessageTypes msgs"
  let ?k = "msg_type m"
  from snoc.prems have k: "?k \<notin> set object_prototype_keys"
    and rest: "\<forall>m \<in> set msgs. msg_type m \<notin> set object_prototype_keys"
    by simp_all
  from snoc.IH [OF rest] obtain counts where
    counts: "map snd ?C = map Num counts" "sum_list counts = length msgs"
    and dist: "distinct (map fst ?C)"
    and look: "\<And>t. map_of ?C t =
        (let n = length (filter (\<lambda>m. msg_type m = t) msgs)
         in if n = 0 then None else Some (Num n))"
    by blast
  have step: "countMessageTypes (msgs @ [m]) = set_own ?k (or_zero_plus_one (map_of ?C ?k)) ?C"
    by (simp add: countMessageTypes_snoc bump_own [OF k])
  from sum_set_own [OF counts(1), of ?k] obtain counts' where
    "map snd (countMessageTypes (msgs @ [m])) = map Num counts'"
    and "sum_list counts' = Suc (sum_list counts)"
    unfolding step by blast
  then have 1: "\<exists>c. map snd (countMessageTypes (msgs @ [m])) = map Num c
      \<and> sum_list c = length (msgs @ [m])"
    using counts(2) by auto
  have 2: "distinct (map fst (countMessageTypes (msgs @ [m])))"
    using dist by (simp add: step keys_set_own)
  have 3: "map_of (countMessageTypes (msgs @ [m])) t =
        (let n = length (filter (\<lambda>m. msg_type m = t) (msgs @ [m]))
         in if n = 0 then None else Some (Num n))" for t
    by (simp add: step map_of_set_own look or_zero_plus_one_def Let_def)
  from 1 2 3 show ?case by blast
qed

lemma sort_js_set: "set (sort_js xs) = set xs"
  by (simp add: sort_js_def)

lemma sort_js_length: "length (sort_js xs) = length xs"
  by (simp add: sort_js_def)

lemma toISOString_renderable: "renderable ms \<Longrightarrow> \<exists>s. toISOString ms = Inr s"
  by (simp add: toISOString_def renderable_def)

lemma toISOString_error: "toISOString ms = Inl e \<Longrightarrow> e = RangeError"
  by (simp add: toISOString_def split: if_splits)

lemma getMessageTimeRange_returns:
  assumes "\<forall>m \<in> set msgs. renderable (timestamp m * 1000)"
  shows "\<exists>r. getMessageTimeRange msgs = Inr r"
proof (cases "msgs = []")
  case True
  then show ?thesis by (simp add: getMessageTimeRange_def)
next
  case False
  let ?ts = "sort_js (map timestamp msgs)"
  have len: "0 < length ?ts" using False by (simp add: sort_js_length)
  have "?ts ! 0 \<in> set ?ts" and "?ts ! (length ?ts - 1) \<in> set ?ts"
    using len by simp_all
  then have "?ts ! 0 \<in> timestamp ` set msgs"
    and "?ts ! (length ?ts - 1) \<in> timestamp ` set msgs"
    by (simp_all add: sort_js_set)
  then have "renderable (?ts ! 0 * 1000)" and "renderable (?ts ! (length ?ts - 1) * 1000)"
    using assms by auto
  then obtain e l where "toISOString (?ts ! 0 * 1000) = Inr e"
    and "toISOString (?ts ! (length ?ts - 1) * 1000) = Inr l"
    using toISOString_renderable by blast
  then show ?thesis using False by (simp add: getMessageTimeRange_def Let_def)
qed

lemma getMessageTimeRange_error: "getMessageTimeRange msgs = Inl e \<Longrightarrow> e = RangeError"
  by (auto simp: getMessageTimeRange_def Let_def split: if_splits sum.splits
      dest: toISOString_error)

text \<open>\<open>getMessageTimeRange\<close> returns \<open>null\<close> exactly for the empty list.\<close>

lemma getMessageTimeRange_null: "getMessageTimeRange msgs = Inr None \<longleftrightarrow> msgs = []"
  by (auto simp: getMessageTimeRange_def Let_def split: sum.splits)

lemma generateStatistics_returns:
  "\<forall>m \<in> set msgs. renderable (timestamp m * 1000) \<Longrightarrow> \<exists>s. generateStatistics msgs = Inr s"
  using getMessageTimeRange_returns [of msgs] by (auto simp: generateStatistics_def Let_def)

lemma generateStatistics_error: "generateStatistics msgs = Inl e \<Longrightarrow> e = RangeError"
  by (auto simp: generateStatistics_def Let_def split: sum.splits dest: getMessageTimeRange_error)

text \<open>
  C8. The earliest and the latest instant are the first and the last element of the
  timestamps after the default \<open>sort()\<close>, which orders numbers by their decimal
  strings: of two messages one second apart, at 999999999 and at 1000000000 seconds,
  the later one is reported as the earliest and the earlier one as the latest.
\<close>

theorem getMessageTimeRange_sorts_as_strings:
  "getMessageTimeRange [message_at 999999999, message_at 1000000000]
     = Inr (Some \<lparr>earliest = ''2001-09-09T01:46:40.000Z'',
                  latest = ''2001-09-09T01:46:39.000Z''\<rparr>)"
proof -
  have sorted: "sort_js [999999999, 1000000000] = [1000000000, 999999999]"
    by (simp add: sort_js_def eval_number)
  have first: "toISOString 1000000000000 = Inr ''2001-09-09T01:46:40.000Z''"
    by (simp add: eval_iso)
  have last: "toISOString 999999999000 = Inr ''2001-09-09T01:46:39.000Z''"
    by (simp add: eval_iso)
  show ?thesis
    by (simp add: getMessageTimeRange_def message_at_def Let_def sorted first last)
qed

text \<open>
  C9, as the code has it. For every list of messages none of whose type tags is a
  property name inherited from \<open>Object.prototype\<close>, the properties of the object that
  \<open>countMessageTypes\<close> returns are numbers that sum to the number of messages; every
  type is one key, whose count is the number of messages of that type, and every
  message has its type among the keys: each message is counted in exactly one bucket.
  Whenever \<open>generateStatistics\<close> returns, \<open>totalMessages\<close> is the number of messages and
  \<open>messageTypes\<close> is that object; it returns for every list whose timestamps are
  instants that \<open>toISOString\<close> renders.
\<close>

theorem statistics_conservation:
  assumes "\<forall>m \<in> set msgs. msg_type m \<notin> set object_prototype_keys"
  shows "(\<exists>counts. map snd (countMessageTypes msgs) = map Num counts
            \<and> sum_list counts = length msgs)
   \<and> distinct (map fst (countMessageTypes msgs))
   \<and> (\<forall>t. map_of (countMessageTypes msgs) t =
          (let n = length (filter (\<lambda>m. msg_type m = t) msgs)
           in if n = 0 then None else Some (Num n)))
   \<and> (\<forall>m \<in> set msgs. msg_type m \<in> fst ` set (countMessageTypes msgs))
   \<and> (\<forall>s. generateStatistics msgs = Inr s \<longrightarrow>
          totalMessages s = length msgs \<and> messageTypes s = countMessageTypes msgs)
   \<and> ((\<forall>m \<in> set msgs. renderable (timestamp m * 1000)) \<longrightarrow>
          (\<exists>s. generateStatistics msgs = Inr s))"
proof -
  note own = countMessageTypes_own [OF assms]
  have keys: "msg_type m \<in> fst ` set (countMessageTypes msgs)" if m: "m \<in> set msgs" for m
  proof -
    from m have "filter (\<lambda>x. msg_type x = msg_type m) msgs \<noteq> []"
      by (auto simp: filter_empty_conv)
    then have "map_of (countMessageTypes msgs) (msg_type m) \<noteq> None"
      using own by (simp add: Let_def)
    then show ?thesis by (simp add: map_of_eq_None_iff)
  qed
  have total: "totalMessages s = length msgs \<and> messageTypes s = countMessageTypes msgs"
    if "generateStatistics msgs = Inr s" for s
    using that by (auto simp: generateStatistics_def Let_def split: sum.splits)
  have returns: "\<exists>s. generateStatistics msgs = Inr s"
    if "\<forall>m \<in> set msgs. renderable (timestamp m * 1000)"
    using that by (rule generateStatistics_returns)
  from own keys total returns show ?thesis by blast
qed

lemma sample_messages_eval:
  "sample_messages =
     [\<lparr>msg_id = ''m1'', timestamp = 1691398200, msg_from = ''15550001111@c.us'',
       author = ''15550001111@c.us'', body = ''Looking for a roommate'',
       msg_type = ''chat'', hasMedia = False\<rparr>,
      \<lparr>msg_id = ''m2'', timestamp = 1691398260, msg_from = ''15550001111@c.us'',
       author = ''15550001111@c.us'', body = ''Looking for a roommate'',
       msg_type = ''image'', hasMedia = False\<rparr>,
      \<lparr>msg_id = ''m3'', timestamp = 1691398320, msg_from = ''15550001111@c.us'',
       author = ''15550001111@c.us'', body = ''Looking for a roommate'',
       msg_type = ''chat'', hasMedia = False\<rparr>]"
  by (simp add: sample_messages_def extractMessages_def sample_chat_def sample_message_def
      or_string_def or_false_def)

lemma sample_time_range:
  "getMessageTimeRange sample_messages =
     Inr (Some \<lparr>earliest = ''2023-08-07T08:50:00.000Z'', latest = ''2023-08-07T08:52:00.000Z''\<rparr>)"
proof -
  have sorted: "sort_js [1691398200, 1691398260, 1691398320]
      = [1691398200, 1691398260, 1691398320]"
    by (simp add: sort_js_def eval_number)
  have first: "toISOString 1691398200000 = Inr ''2023-08-07T08:50:00.000Z''"
    by (simp add: eval_iso)
  have last: "toISOString 1691398320000 = Inr ''2023-08-07T08:52:00.000Z''"
    by (simp add: eval_iso)
  show ?thesis
    by (simp add: sample_messages_eval getMessageTimeRange_def Let_def sorted first last)
qed

lemmas eval_types = countMessageTypes_def bump_def set_property_def get_property_def
  or_zero_plus_one_def object_prototype_keys_def inherited_text_def

lemma sample_types:
  "countMessageTypes sample_messages = [(''chat'', Num 2), (''image'', Num 1)]"
  by (simp add: sample_messages_eval eval_types)

lemma sample_statistics:
  "generateStatistics sample_messages =
     Inr \<lparr>totalMessages = 3, messageTypes = [(''chat'', Num 2), (''image'', Num 1)],
          timeRange = Some \<lparr>earliest = ''2023-08-07T08:50:00.000Z'',
                             latest = ''2023-08-07T08:52:00.000Z''\<rparr>\<rparr>"
proof -
  have "length sample_messages = 3"
    by (simp add: sample_messages_eval)
  then show ?thesis
    by (simp add: generateStatistics_def sample_time_range sample_types)
qed

theorem statistics_conservation_witness:
  "length sample_messages = 3
   \<and> generateStatistics sample_messages =
       Inr \<lparr>totalMessages = 3, messageTypes = [(''chat'', Num 2), (''image'', Num 1)],
            timeRange = Some \<lparr>earliest = ''2023-08-07T08:50:00.000Z'',
                               latest = ''2023-08-07T08:52:00.000Z''\<rparr>\<rparr>
   \<and> (\<exists>counts. map snd (countMessageTypes sample_messages) = map Num counts
          \<and> sum_list counts = length sample_messages)
   \<and> map_of (countMessageTypes sample_messages) ''chat'' = Some (Num 2)
   \<and> map_of (countMessageTypes sample_messages) ''image'' = Some (Num 1)
   \<and> map_of (countMessageTypes sample_messages) ''video'' = None"
proof -
  have tags: "\<forall>m \<in> set sample_messages. msg_type m \<notin> set object_prototype_keys"
    by (simp add: sample_messages_eval object_prototype_keys_def)
  have len: "length sample_messages = 3"
    by (simp add: sample_messages_eval)
  have types: "length (filter (\<lambda>m. msg_type m = ''chat'') sample_messages) = 2"
    "length (filter (\<lambda>m. msg_type m = ''image'') sample_messages) = 1"
    "length (filter (\<lambda>m. msg_type m = ''video'') sample_messages) = 0"
    by (simp_all add: sample_messages_eval)
  from statistics_conservation [OF tags]
  have sum: "\<exists>counts. map snd (countMessageTypes sample_messages) = map Num counts
          \<and> sum_list counts = length sample_messages"
    and look: "\<And>t. map_of (countMessageTypes sample_messages) t =
          (let n = length (filter (\<lambda>m. msg_type m = t) sample_messages)
           in if n = 0 then None else Some (Num n))"
    by blast+
  have "map_of (countMessageTypes sample_messages) ''chat'' = Some (Num 2)"
    and "map_of (countMessageTypes sample_messages) ''image'' = Some (Num 1)"
    and "map_of (countMessageTypes sample_messages) ''video'' = None"
    by (simp_all add: look types)
  with len sum sample_statistics show ?thesis by blast
qed

text \<open>
  C9 as stated fails. A message whose type tag is \<open>__proto__\<close> is counted in no
  bucket: the read gives the prototype object, the sum is a string, and the inherited
  setter ignores it. For the tag \<open>constructor\<close> the bucket holds a string, not a count.
  And for a message whose timestamp is beyond the range of \<open>Date\<close>,
  \<open>generateStatistics\<close> throws instead of returning \<open>totalMessages\<close>.
\<close>

theorem countMessageTypes_inherited_counterexample:
  "countMessageTypes [message_of_type ''__proto__''] = []
   \<and> countMessageTypes [message_of_type ''constructor'']
       = [(''constructor'', Str ''function Object() { [native code] }1'')]
   \<and> generateStatistics [message_at 8640000000001] = Inl RangeError"
proof -
  have 1: "countMessageTypes [message_of_type ''__proto__''] = []"
    by (simp add: message_of_type_def eval_types)
  have 2: "countMessageTypes [message_of_type ''constructor'']
      = [(''constructor'', Str ''function Object() { [native code] }1'')]"
    by (simp add: message_of_type_def eval_types)
  have "toISOString 8640000000001000 = Inl RangeError"
    by (simp add: toISOString_def)
  then have 3: "generateStatistics [message_at 8640000000001] = Inl RangeError"
    by (simp add: generateStatistics_def getMessageTimeRange_def message_at_def sort_js_def
        Let_def)
  from 1 2 3 show ?thesis by blast
qed

section \<open>scrapeGroup and the registry\<close>

lemma extractGroupData_error: "extractGroupData cl now c cfg = Inl e \<Longrightarrow> e = RangeError"
  by (auto simp: extractGroupData_def Let_def split: sum.splits
      dest: toISOString_error generateStatistics_error)

lemma extractGroupData_returns:
  assumes "renderable now" and "\<forall>m \<in> set (extractMessages c). renderable (timestamp m * 1000)"
  shows "\<exists>d. extractGroupData cl now c cfg = Inr d"
proof -
  obtain stamp where "toISOString now = Inr stamp"
    using assms(1) toISOString_renderable by blast
  moreover obtain st where "generateStatistics (extractMessages c) = Inr st"
    using assms(2) generateStatistics_returns by blast
  ultimately show ?thesis by (simp add: extractGroupData_def Let_def)
qed

lemma getGroupByName_None: "getGroupByName n = None \<longleftrightarrow> toUpperCase n \<notin> fst ` set universityGroups"
  by (simp add: getGroupByName_def map_of_eq_None_iff)

text \<open>
  C7, as the code has it. \<open>scrapeGroup\<close> looks the name up in the module-level registry
  \<open>universityGroups\<close>: on a ready client it rejects with "Group not found in
  configuration" exactly when the upper-cased name is no key of the registry, and then
  leaves the scraper as it was, whatever chats the client reaches. For a registered name
  whose chat is reachable, with instants that \<open>toISOString\<close> renders and an output
  directory that can be written, it resolves with the group data of that chat (its
  identity, the members and messages extracted from it and their statistics) and has
  written that data to the file named after the lower-cased name and the day.
\<close>

theorem scrapeGroup_registry_gate:
  assumes "info (wa_client this)"
  shows "((fst (scrapeGroup this t1 t2 n) = Rejected (GroupNotFound n))
            \<longleftrightarrow> toUpperCase n \<notin> fst ` set universityGroups)
       \<and> (toUpperCase n \<notin> fst ` set universityGroups \<longrightarrow> snd (scrapeGroup this t1 t2 n) = this)
       \<and> (\<forall>cfg c. getGroupByName n = Some cfg
              \<and> getChatById (wa_client this) (group_id cfg) = Some c
              \<and> renderable t1 \<and> renderable t2
              \<and> (\<forall>m \<in> set (extractMessages c). renderable (timestamp m * 1000))
              \<and> disk_writable this
            \<longrightarrow> (\<exists>d day st.
                  toISOString t1 = Inr (scrapedAt (groupInfo d))
                \<and> toISOString t2 = Inr day
                \<and> generateStatistics (extractMessages c) = Inr st
                \<and> d = \<lparr>groupInfo = \<lparr>gi_id = chat_serialized c, gi_name = chat_name c,
                                       gi_description = chat_description c,
                                       participantCount = length (chat_participants c),
                                       scrapedAt = scrapedAt (groupInfo d)\<rparr>,
                       members = processMembers (wa_client this) (chat_participants c),
                       messages = extractMessages c, stats = st\<rparr>
                \<and> extractGroupData (wa_client this) t1 c cfg = Inr d
                \<and> scrapeGroup this t1 t2 n =
                    (Resolved d,
                     this\<lparr>written := written this @
                       [(outputDir this,
                         toLowerCase n @ ''_data_'' @ takeWhile (\<lambda>ch. ch \<noteq> CHR ''T'') day
                           @ ''.json'', d)]\<rparr>)))"
proof (intro conjI)
  show "(fst (scrapeGroup this t1 t2 n) = Rejected (GroupNotFound n))
          \<longleftrightarrow> toUpperCase n \<notin> fst ` set universityGroups"
  proof
    assume rejected: "fst (scrapeGroup this t1 t2 n) = Rejected (GroupNotFound n)"
    show "toUpperCase n \<notin> fst ` set universityGroups"
    proof (cases "getGroupByName n")
      case None
      then show ?thesis by (simp add: getGroupByName_None)
    next
      case (Some cfg)
      with rejected assms have False
        by (auto simp: scrapeGroup_def Let_def split: option.splits sum.splits if_splits
            dest: extractGroupData_error toISOString_error)
      then show ?thesis ..
    qed
  next
    assume "toUpperCase n \<notin> fst ` set universityGroups"
    then have "getGroupByName n = None" by (simp add: getGroupByName_None)
    then show "fst (scrapeGroup this t1 t2 n) = Rejected (GroupNotFound n)"
      using assms by (simp add: scrapeGroup_def)
  qed
next
  show "toUpperCase n \<notin> fst ` set universityGroups \<longrightarrow> snd (scrapeGroup this t1 t2 n) = this"
  proof
    assume "toUpperCase n \<notin> fst ` set universityGroups"
    then have "getGroupByName n = None" by (simp add: getGroupByName_None)
    then show "snd (scrapeGroup this t1 t2 n) = this"
      using assms by (simp add: scrapeGroup_def)
  qed
next
  show "\<forall>cfg c. getGroupByName n = Some cfg
              \<and> getChatById (wa_client this) (group_id cfg) = Some c
              \<and> renderable t1 \<and> renderable t2
              \<and> (\<forall>m \<in> set (extractMessages c). renderable (timestamp m * 1000))
              \<and> disk_writable this
            \<longrightarrow> (\<exists>d day st.
                  toISOString t1 = Inr (scrapedAt (groupInfo d))
                \<and> toISOString t2 = Inr day
                \<and> generateStatistics (extractMessages c) = Inr st
                \<and> d = \<lparr>groupInfo = \<lparr>gi_id = chat_serialized c, gi_name = chat_name c,
                                       gi_description = chat_description c,
                                       participantCount = length (chat_participants c),
                                       scrapedAt = scrapedAt (groupInfo d)\<rparr>,
                       members = processMembers (wa_client this) (chat_participants c),
                       messages = extractMessages c, stats = st\<rparr>
                \<and> extractGroupData (wa_client this) t1 c cfg = Inr d
                \<and> scrapeGroup this t1 t2 n =
                    (Resolved d,
                     this\<lparr>written := written this @
                       [(outputDir this,
                         toLowerCase n @ ''_data_'' @ takeWhile (\<lambda>ch. ch \<noteq> CHR ''T'') day
                           @ ''.json'', d)]\<rparr>))"
  proof (intro allI impI, elim conjE)
    fix cfg c
    assume cfg: "getGroupByName n = Some cfg"
      and c: "getChatById (wa_client this) (group_id cfg) = Some c"
      and t1: "renderable t1" and t2: "renderable t2"
      and msgs: "\<forall>m \<in> set (extractMessages c). renderable (timestamp m * 1000)"
      and disk: "disk_writable this"
    obtain stamp where stamp: "toISOString t1 = Inr stamp"
      using t1 toISOString_renderable by blast
    obtain day where day: "toISOString t2 = Inr day"
      using t2 toISOString_renderable by blast
    obtain st where st: "generateStatistics (extractMessages c) = Inr st"
      using msgs generateStatistics_returns by blast
    define d where "d = \<lparr>groupInfo = \<lparr>gi_id = chat_serialized c, gi_name = chat_name c,
                                       gi_description = chat_description c,
                                       participantCount = length (chat_participants c),
                                       scrapedAt = stamp\<rparr>,
                       members = processMembers (wa_client this) (chat_participants c),
                       messages = extractMessages c, stats = st\<rparr>"
    have at: "scrapedAt (groupInfo d) = stamp" by (simp add: d_def)
    have data: "extractGroupData (wa_client this) t1 c cfg = Inr d"
      by (simp add: extractGroupData_def stamp st d_def)
    have run: "scrapeGroup this t1 t2 n =
        (Resolved d,
         this\<lparr>written := written this @
           [(outputDir this,
             toLowerCase n @ ''_data_'' @ takeWhile (\<lambda>ch. ch \<noteq> CHR ''T'') day @ ''.json'', d)]\<rparr>)"
      using assms cfg c data day disk by (simp add: scrapeGroup_def Let_def)
    have shape: "d = \<lparr>groupInfo = \<lparr>gi_id = chat_serialized c, gi_name = chat_name c,
                                       gi_description = chat_description c,
                                       participantCount = length (chat_participants c),
                                       scrapedAt = scrapedAt (groupInfo d)\<rparr>,
                       members = processMembers (wa_client this) (chat_participants c),
                       messages = extractMessages c, stats = st\<rparr>"
      unfolding at by (simp add: d_def)
    from stamp day st shape data run show "\<exists>d day st.
                  toISOString t1 = Inr (scrapedAt (groupInfo d))
                \<and> toISOString t2 = Inr day
                \<and> generateStatistics (extractMessages c) = Inr st
                \<and> d = \<lparr>groupInfo = \<lparr>gi_id = chat_serialized c, gi_name = chat_name c,
                                       gi_description = chat_description c,
                                       participantCount = length (chat_participants c),
                                       scrapedAt = scrapedAt (groupInfo d)\<rparr>,
                       members = processMembers (wa_client this) (chat_participants c),
                       messages = extractMessages c, stats = st\<rparr>
                \<and> extractGroupData (wa_client this) t1 c cfg = Inr d
                \<and> scrapeGroup this t1 t2 n =
                    (Resolved d,
                     this\<lparr>written := written this @
                       [(outputDir this,
                         toLowerCase n @ ''_data_'' @ takeWhile (\<lambda>ch. ch \<noteq> CHR ''T'') day
                           @ ''.json'', d)]\<rparr>)"
      unfolding at [symmetric] by blast
  qed
qed

lemma sample_renderable:
  "\<forall>m \<in> set (extractMessages (sample_chat i)). renderable (timestamp m * 1000)"
  by (simp add: extractMessages_def sample_chat_def sample_message_def renderable_def)

theorem scrapeGroup_registry_gate_witness:
  "info (wa_client ready_scraper)
   \<and> getGroupByName ''top_gs'' = Some (snd (hd universityGroups))
   \<and> fst (scrapeGroup ready_scraper 1691400000000 1691400000000 ''top_gs'')
        \<noteq> Rejected (GroupNotFound ''top_gs'')
   \<and> (\<exists>d. scrapeGroup ready_scraper 1691400000000 1691400000000 ''top_gs''
            = (Resolved d,
               ready_scraper\<lparr>written := [(''outputs'', ''top_gs_data_2023-08-07.json'', d)]\<rparr>)
          \<and> messages d = sample_messages
          \<and> stats d = \<lparr>totalMessages = 3, messageTypes = [(''chat'', Num 2), (''image'', Num 1)],
                timeRange = Some \<lparr>earliest = ''2023-08-07T08:50:00.000Z'',
                                   latest = ''2023-08-07T08:52:00.000Z''\<rparr>\<rparr>)
   \<and> fst (scrapeGroup ready_scraper 1691400000000 1691400000000 ''stanford_marketplace'')
        = Rejected (GroupNotFound ''stanford_marketplace'')
   \<and> snd (scrapeGroup ready_scraper 1691400000000 1691400000000 ''stanford_marketplace'')
        = ready_scraper"
proof -
  let ?id = "''120363025923230723@g.us''"
  have ready: "info (wa_client ready_scraper)"
    by (simp add: ready_scraper_def)
  have registered: "getGroupByName ''top_gs'' = Some (snd (hd universityGroups))"
    by code_simp
  then have key: "\<not> toUpperCase ''top_gs'' \<notin> fst ` set universityGroups"
    using getGroupByName_None [of "''top_gs''"] by simp
  have other: "toUpperCase ''stanford_marketplace'' \<notin> fst ` set universityGroups"
    by code_simp
  have gid: "group_id (snd (hd universityGroups)) = ?id"
    by (simp add: universityGroups_def)
  have chat: "getChatById (wa_client ready_scraper) (group_id (snd (hd universityGroups)))
      = Some (sample_chat ?id)"
    by (simp add: ready_scraper_def gid)
  have times: "renderable 1691400000000"
    by (simp add: renderable_def)
  have disk: "disk_writable ready_scraper"
    by (simp add: ready_scraper_def)
  have day: "toISOString 1691400000000 = Inr ''2023-08-07T09:20:00.000Z''"
    by (simp add: eval_iso)
  have lower: "toLowerCase ''top_gs'' = ''top_gs''"
    by code_simp
  have out: "outputDir ready_scraper = ''outputs''" and none: "written ready_scraper = []"
    by (simp_all add: ready_scraper_def)
  note gate = scrapeGroup_registry_gate [OF ready, of 1691400000000 1691400000000]
  note rejects = gate [THEN conjunct1]
  note untouched = gate [THEN conjunct2, THEN conjunct1, THEN mp]
  note resolves = gate [THEN conjunct2, THEN conjunct2, THEN spec, THEN spec, THEN mp]
  from rejects [of "''top_gs''"] key
  have not_rejected: "fst (scrapeGroup ready_scraper 1691400000000 1691400000000 ''top_gs'')
          \<noteq> Rejected (GroupNotFound ''top_gs'')"
    by simp
  have hyps: "getGroupByName ''top_gs'' = Some (snd (hd universityGroups))
      \<and> getChatById (wa_client ready_scraper) (group_id (snd (hd universityGroups)))
          = Some (sample_chat ?id)
      \<and> renderable 1691400000000 \<and> renderable 1691400000000
      \<and> (\<forall>m \<in> set (extractMessages (sample_chat ?id)). renderable (timestamp m * 1000))
      \<and> disk_writable ready_scraper"
    using registered chat times disk sample_renderable [of ?id] by (intro conjI)
  from resolves [OF hyps] obtain d dd st where
    d1: "toISOString 1691400000000 = Inr dd"
    and d2: "generateStatistics (extractMessages (sample_chat ?id)) = Inr st"
    and shape: "d = \<lparr>groupInfo = \<lparr>gi_id = chat_serialized (sample_chat ?id),
                     gi_name = chat_name (sample_chat ?id),
                     gi_description = chat_description (sample_chat ?id),
                     participantCount = length (chat_participants (sample_chat ?id)),
                     scrapedAt = scrapedAt (groupInfo d)\<rparr>,
                 members = processMembers (wa_client ready_scraper)
                             (chat_participants (sample_chat ?id)),
                 messages = extractMessages (sample_chat ?id), stats = st\<rparr>"
    and run: "scrapeGroup ready_scraper 1691400000000 1691400000000 ''top_gs'' =
         (Resolved d,
          ready_scraper\<lparr>written := written ready_scraper @
             [(outputDir ready_scraper,
               toLowerCase ''top_gs'' @ ''_data_'' @ takeWhile (\<lambda>ch. ch \<noteq> CHR ''T'') dd
                 @ ''.json'', d)]\<rparr>)"
    by (elim exE conjE)
  from d1 day have dd: "dd = ''2023-08-07T09:20:00.000Z''" by simp
  from d2 sample_statistics have st: "st = \<lparr>totalMessages = 3,
      messageTypes = [(''chat'', Num 2), (''image'', Num 1)],
      timeRange = Some \<lparr>earliest = ''2023-08-07T08:50:00.000Z'',
                         latest = ''2023-08-07T08:52:00.000Z''\<rparr>\<rparr>"
    by (simp add: sample_messages_def)
  have msgs_d: "messages d = sample_messages"
    using arg_cong [OF shape, of messages] by (simp add: sample_messages_def)
  have stats_d: "stats d = st"
    using arg_cong [OF shape, of stats] by simp
  have saved: "scrapeGroup ready_scraper 1691400000000 1691400000000 ''top_gs''
            = (Resolved d,
               ready_scraper\<lparr>written := [(''outputs'', ''top_gs_data_2023-08-07.json'', d)]\<rparr>)"
    unfolding run dd lower out none by simp
  have resolved: "\<exists>d. scrapeGroup ready_scraper 1691400000000 1691400000000 ''top_gs''
            = (Resolved d,
               ready_scraper\<lparr>written := [(''outputs'', ''top_gs_data_2023-08-07.json'', d)]\<rparr>)
          \<and> messages d = sample_messages
          \<and> stats d = \<lparr>totalMessages = 3, messageTypes = [(''chat'', Num 2), (''image'', Num 1)],
                timeRange = Some \<lparr>earliest = ''2023-08-07T08:50:00.000Z'',
                                   latest = ''2023-08-07T08:52:00.000Z''\<rparr>\<rparr>"
    using saved msgs_d stats_d st by (intro exI [of _ d]) simp
  have rejected: "fst (scrapeGroup ready_scraper 1691400000000 1691400000000 ''stanford_marketplace'')
          = Rejected (GroupNotFound ''stanford_marketplace'')"
    using rejects [of "''stanford_marketplace''"] other by simp
  have same: "snd (scrapeGroup ready_scraper 1691400000000 1691400000000 ''stanford_marketplace'')
          = ready_scraper"
    using other by (rule untouched)
  from ready registered not_rejected resolved rejected same show ?thesis
    by (intro conjI)
qed

text \<open>
  C7 as stated fails: the client is ready and reaches a chat under every identifier,
  the caller asks for the group \<open>MIT_AI_HACKS\<close>, and the call is rejected because the
  module-level registry has no such key.
\<close>

theorem scrapeGroup_unregistered_counterexample:
  "info (wa_client ready_scraper)
   \<and> getChatById (wa_client ready_scraper) ''120363199877384683@g.us''
        = Some (sample_chat ''120363199877384683@g.us'')
   \<and> scrapeGroup ready_scraper 1691400000000 1691400000000 ''MIT_AI_HACKS''
        = (Rejected (GroupNotFound ''MIT_AI_HACKS''), ready_scraper)"
proof -
  have "getGroupByName ''MIT_AI_HACKS'' = None" by code_simp
  then show ?thesis by (simp add: scrapeGroup_def ready_scraper_def)
qed

section \<open>Normalizer\<close>

lemma is_space_lower [simp]: "is_space (lower_char c) = is_space c"
  by (auto simp: is_space_def lower_char_def is_upper_def Let_def)

lemma lower_char_idem [simp]: "lower_char (lower_char c) = lower_char c"
  by (auto simp: lower_char_def is_upper_def Let_def)

lemma lower_upper_char: "is_lower c \<Longrightarrow> lower_char (upper_char c) = lower_char c"
  by (auto simp: upper_char_def lower_char_def is_lower_def is_upper_def Let_def)

lemma case_variant_lower: "case_variant c d \<Longrightarrow> lower_char c = lower_char d"
  by (auto simp: case_variant_def lower_upper_char)

lemma differ_only_in_case_lower: "differ_only_in_case a b \<Longrightarrow> toLowerCase a = toLowerCase b"
  unfolding differ_only_in_case_def toLowerCase_def
  by (induction a b rule: list_all2_induct) (auto dest: case_variant_lower)

lemma lower_space [simp]: "lower_char (CHR '' '') = CHR '' ''"
  by (simp add: lower_char_def is_upper_def)

lemma collapse_ws_lower: "collapse_ws (map lower_char s) = map lower_char (collapse_ws s)"
  by (induction s rule: collapse_ws.induct) auto

lemma dropWhile_space_lower:
  "dropWhile is_space (map lower_char s) = map lower_char (dropWhile is_space s)"
  by (induction s) auto

lemma strip_lower: "strip (map lower_char s) = map lower_char (strip s)"
  by (simp add: strip_def dropWhile_space_lower rev_map)

lemma canon_lower:
  "toLowerCase (collapse_ws (strip (toLowerCase s))) = toLowerCase (collapse_ws (strip s))"
  by (simp add: toLowerCase_def strip_lower collapse_ws_lower)

lemma strip_leading: "is_space w \<Longrightarrow> strip (w # a) = strip a"
  by (simp add: strip_def)

lemma dropWhile_snoc_space:
  "is_space w \<Longrightarrow> dropWhile is_space (rev (dropWhile is_space (a @ [w])))
      = dropWhile is_space (rev (dropWhile is_space a))"
  by (induction a) auto

lemma strip_trailing: "is_space w \<Longrightarrow> strip (a @ [w]) = strip a"
  by (simp add: strip_def dropWhile_snoc_space)


lemma strip_space_prefix: "\<forall>x \<in> set a. is_space x \<Longrightarrow> strip (a @ t) = strip t"
  by (simp add: strip_def dropWhile_append2)

lemma strip_space_suffix: "\<forall>x \<in> set b. is_space x \<Longrightarrow> strip (t @ b) = strip t"
proof (induction b rule: rev_induct)
  case Nil
  then show ?case by simp
next
  case (snoc x b)
  have "strip (t @ b @ [x]) = strip ((t @ b) @ [x])" by simp
  also have "\<dots> = strip (t @ b)" using snoc.prems by (intro strip_trailing) simp
  finally show ?case using snoc by simp
qed

lemma strip_middle:
  assumes "\<exists>x \<in> set a. \<not> is_space x" and "\<exists>y \<in> set b. \<not> is_space y"
  shows "strip (a @ m @ b) = dropWhile is_space a @ m @ rev (dropWhile is_space (rev b))"
proof -
  from assms(1) have 1: "dropWhile is_space (a @ m @ b) = dropWhile is_space a @ m @ b"
    by (auto simp: dropWhile_append1)
  from assms(2) have 2: "dropWhile is_space (rev b @ rev m @ rev (dropWhile is_space a))
      = dropWhile is_space (rev b) @ rev m @ rev (dropWhile is_space a)"
    by (auto simp: dropWhile_append1)
  show ?thesis by (simp add: strip_def 1 2)
qed

lemma collapse_ws_head: "is_space w \<Longrightarrow> is_space w' \<Longrightarrow> collapse_ws (w # y) = collapse_ws (w' # y)"
  by (cases y) auto

lemma collapse_ws_double:
  "is_space w \<Longrightarrow> is_space w' \<Longrightarrow> collapse_ws (w # w' # y) = collapse_ws (w # y)"
  by (cases y) auto

lemma collapse_ws_cons_cong:
  assumes "t \<noteq> []" and "t' \<noteq> []" and "is_space (hd t) = is_space (hd t')"
    and "collapse_ws t = collapse_ws t'"
  shows "collapse_ws (c # t) = collapse_ws (c # t')"
proof -
  obtain d ds where t: "t = d # ds" using assms(1) by (cases t) auto
  obtain e es where t': "t' = e # es" using assms(2) by (cases t') auto
  show ?thesis using assms(3,4) unfolding t t' by simp
qed

lemma collapse_ws_run_length:
  assumes "is_space w" and "is_space w'"
  shows "collapse_ws (x @ w # w' # y) = collapse_ws (x @ w # y)"
proof (induction x)
  case Nil
  then show ?case using assms by (simp add: collapse_ws_double del: collapse_ws.simps)
next
  case (Cons c x)
  have "collapse_ws (c # (x @ w # w' # y)) = collapse_ws (c # (x @ w # y))"
    by (rule collapse_ws_cons_cong) (use Cons in \<open>auto simp: hd_append\<close>)
  then show ?case by simp
qed

lemma collapse_ws_run_char:
  assumes "is_space w" and "is_space w'"
  shows "collapse_ws (x @ w # y) = collapse_ws (x @ w' # y)"
proof (induction x)
  case Nil
  then show ?case using assms by (simp add: collapse_ws_head [of w w'] del: collapse_ws.simps)
next
  case (Cons c x)
  have "collapse_ws (c # (x @ w # y)) = collapse_ws (c # (x @ w' # y))"
    by (rule collapse_ws_cons_cong) (use Cons assms in \<open>auto simp: hd_append\<close>)
  then show ?case by simp
qed

lemma squeeze_run_length:
  assumes "is_space w" and "is_space w'"
  shows "collapse_ws (strip (a @ w # w' # b)) = collapse_ws (strip (a @ w # b))"
proof (cases "\<forall>x \<in> set a. is_space x")
  case True
  then show ?thesis using assms by (simp add: strip_space_prefix strip_leading)
next
  case a: False
  show ?thesis
  proof (cases "\<forall>y \<in> set b. is_space y")
    case True
    have "strip ((a @ [w, w']) @ b) = strip (a @ [w, w'])" and "strip ((a @ [w]) @ b) = strip (a @ [w])"
      using True by (rule strip_space_suffix)+
    moreover have "strip ((a @ [w]) @ [w']) = strip (a @ [w])"
      using assms(2) by (rule strip_trailing)
    ultimately show ?thesis by simp
  next
    case False
    with a have "strip (a @ [w, w'] @ b) = dropWhile is_space a @ [w, w'] @ rev (dropWhile is_space (rev b))"
      and "strip (a @ [w] @ b) = dropWhile is_space a @ [w] @ rev (dropWhile is_space (rev b))"
      by (blast intro: strip_middle)+
    then show ?thesis using collapse_ws_run_length [OF assms] by simp
  qed
qed

lemma squeeze_run_char:
  assumes "is_space w" and "is_space w'"
  shows "collapse_ws (strip (a @ w # b)) = collapse_ws (strip (a @ w' # b))"
proof (cases "\<forall>x \<in> set a. is_space x")
  case True
  then show ?thesis using assms by (simp add: strip_space_prefix strip_leading)
next
  case a: False
  show ?thesis
  proof (cases "\<forall>y \<in> set b. is_space y")
    case True
    have "strip ((a @ [w]) @ b) = strip (a @ [w])" and "strip ((a @ [w']) @ b) = strip (a @ [w'])"
      using True by (rule strip_space_suffix)+
    then show ?thesis using assms by (simp add: strip_trailing)
  next
    case False
    with a have "strip (a @ [w] @ b) = dropWhile is_space a @ [w] @ rev (dropWhile is_space (rev b))"
      and "strip (a @ [w'] @ b) = dropWhile is_space a @ [w'] @ rev (dropWhile is_space (rev b))"
      by (blast intro: strip_middle)+
    then show ?thesis using collapse_ws_run_char [OF assms] by simp
  qed
qed

lemma squeeze_invariant:
  "differ_only_in_whitespace_and_case a b \<Longrightarrow>
   toLowerCase (collapse_ws (strip a)) = toLowerCase (collapse_ws (strip b))"
proof (induction rule: differ_only_in_whitespace_and_case.induct)
  case (letter_case a b)
  then have "toLowerCase a = toLowerCase b" by (rule differ_only_in_case_lower)
  then show ?case using canon_lower [of a] canon_lower [of b] by simp
next
  case (run_length w w' a b)
  then show ?case by (simp only: squeeze_run_length)
next
  case (run_char w w' a b)
  then show ?case by (simp only: squeeze_run_char [of w w'])
qed (simp_all add: strip_leading strip_trailing)

text \<open>
  C3. \<open>normalize\<close> is a function of the raw text alone (and of the fixed noise set and
  digest), so one raw text always has one normalized text and one fingerprint. Two raw
  texts that differ only in letter case, in leading or trailing whitespace or in
  internal whitespace runs have the same normalized text and so the same fingerprint,
  whatever the noise set and the digest are.
\<close>

theorem normalize_text_invariant:
  "differ_only_in_whitespace_and_case a b \<Longrightarrow>
   normalize_text noise digest a = normalize_text noise digest b"
  by (simp add: normalize_text_def squeeze_invariant)

lemma is_space_blank: "is_space (CHR '' '')"
  by (simp add: is_space_def)

theorem normalize_text_invariant_witness:
  "differ_only_in_whitespace_and_case ''Selling a desk'' '' selling  a Desk ''
   \<and> normalize_text (\<lambda>c. False) (\<lambda>t. t) ''Selling a desk''
       = normalize_text (\<lambda>c. False) (\<lambda>t. t) '' selling  a Desk ''
   \<and> normalize_text (\<lambda>c. False) (\<lambda>t. t) '' selling  a Desk ''
       = (''selling a desk'', Digest ''selling a desk'')"
proof -
  have "differ_only_in_case ''Selling a desk'' ''selling a Desk''" by code_simp
  then have 1: "differ_only_in_whitespace_and_case ''Selling a desk'' ''selling a Desk''"
    by (rule letter_case)
  have 2: "differ_only_in_whitespace_and_case ''selling a Desk'' ''selling  a Desk''"
    using run_length [OF is_space_blank is_space_blank, of "''selling''" "''a Desk''"] by simp
  have 3: "differ_only_in_whitespace_and_case ''selling  a Desk'' '' selling  a Desk''"
    using leading [OF is_space_blank, of "''selling  a Desk''"] by simp
  have 4: "differ_only_in_whitespace_and_case '' selling  a Desk'' '' selling  a Desk ''"
    using trailing [OF is_space_blank, of "'' selling  a Desk''"] by simp
  have related: "differ_only_in_whitespace_and_case ''Selling a desk'' '' selling  a Desk ''"
    using 1 2 3 4 by (blast intro: chain)
  have "normalize_text (\<lambda>c. False) (\<lambda>t. t) ''Selling a desk''
      = (''selling a desk'', Digest ''selling a desk'')"
    by code_simp
  with related normalize_text_invariant [OF related, of "\<lambda>c. False" "\<lambda>t. t"]
  show ?thesis by simp
qed

section \<open>Idempotent ingestion\<close>

lemma keys_increment_first:
  "map (\<lambda>r. (rm_group r, rm_source_key r)) (increment_first g f rows)
     = map (\<lambda>r. (rm_group r, rm_source_key r)) rows"
  by (induction rows) auto

lemma keys_increment_latest:
  "map (\<lambda>r. (rm_group r, rm_source_key r)) (increment_latest g f rows)
     = map (\<lambda>r. (rm_group r, rm_source_key r)) rows"
  by (simp add: increment_latest_def rev_map [symmetric] keys_increment_first)

lemma raw_table_reconcile: "raw_table (snd (reconcile f st)) = raw_table st"
  by (simp add: reconcile_def Let_def)

lemma find_None_keys:
  "find_by_source_key rows g k = None \<longleftrightarrow> (g, k) \<notin> set (map (\<lambda>r. (rm_group r, rm_source_key r)) rows)"
  by (auto simp: find_by_source_key_def find_None_iff)

lemma find_append_None: "find P xs = None \<Longrightarrow> find P (xs @ ys) = find P ys"
  by (induction xs) (auto split: if_splits)

lemma find_fresh_row:
  assumes "find_by_source_key rows g k = None" and "rm_group row = g" and "rm_source_key row = k"
  shows "find_by_source_key (increment_latest g' f rows @ [row]) g k = Some row"
proof -
  have "(g, k) \<notin> set (map (\<lambda>r. (rm_group r, rm_source_key r)) (increment_latest g' f rows))"
    using assms(1) by (simp add: keys_increment_latest find_None_keys)
  then have "find (\<lambda>r. rm_group r = g \<and> rm_source_key r = k) (increment_latest g' f rows) = None"
    by (auto simp: find_None_iff)
  then show ?thesis using assms(2,3) by (simp add: find_by_source_key_def find_append_None)
qed

lemma filter_fresh_row:
  assumes "find_by_source_key rows g k = None" and "rm_group row = g" and "rm_source_key row = k"
  shows "filter (\<lambda>r. rm_group r = g \<and> rm_source_key r = k) (increment_latest g' f rows @ [row]) = [row]"
proof -
  have "(g, k) \<notin> set (map (\<lambda>r. (rm_group r, rm_source_key r)) (increment_latest g' f rows))"
    using assms(1) by (simp add: keys_increment_latest find_None_keys)
  then have "filter (\<lambda>r. rm_group r = g \<and> rm_source_key r = k) (increment_latest g' f rows) = []"
    by (auto simp: filter_empty_conv)
  then show ?thesis using assms(2,3) by simp
qed

lemma find_Some_fields:
  "find_by_source_key rows g k = Some r \<Longrightarrow> rm_group r = g \<and> rm_source_key r = k \<and> r \<in> set rows"
  by (auto simp: find_by_source_key_def find_Some_iff)

lemma distinct_filter_key:
  assumes "distinct (map key rows)" and "r \<in> set rows"
  shows "filter (\<lambda>x. key x = key r) rows = [r]"
  using assms
proof (induction rows)
  case Nil
  then show ?case by simp
next
  case (Cons a rows)
  show ?case
  proof (cases "a = r")
    case True
    with Cons.prems have "key r \<notin> key ` set rows" by simp
    then have "\<forall>x \<in> set rows. key x \<noteq> key r" by (metis imageI)
    then have "filter (\<lambda>x. key x = key r) rows = []"
      by (simp add: filter_empty_conv)
    with True show ?thesis by simp
  next
    case False
    with Cons have "key a \<noteq> key r" and "filter (\<lambda>x. key x = key r) rows = [r]" by auto
    then show ?thesis by simp
  qed
qed

text \<open>
  The uniqueness constraint on (group, sourceKey) holds in the empty store and is kept
  by \<open>ingest\<close>.
\<close>

lemma source_keys_unique_empty: "source_keys_unique empty_store"
  by (simp add: source_keys_unique_def empty_store_def)

lemma source_keys_unique_ingest:
  assumes "source_keys_unique st"
  shows "source_keys_unique (snd (ingest noise digest st g sender text ts k))"
proof (cases "find_by_source_key (raw_table st) g k")
  case None
  then have "(g, k) \<notin> set (map (\<lambda>r. (rm_group r, rm_source_key r)) (raw_table st))"
    by (simp add: find_None_keys)
  with assms None show ?thesis
    by (simp add: ingest_def source_keys_unique_def raw_table_reconcile keys_increment_latest
        Let_def split: prod.splits)
next
  case (Some existing)
  with assms show ?thesis
    by (simp add: ingest_def split: prod.splits)
qed

text \<open>
  C1. In a store that keeps the uniqueness constraint on (group, sourceKey), let a call
  of \<open>ingest\<close> for a group, a source key and a text return a record. A second call with
  the same group, source key and text (whatever sender and timestamp it carries) returns
  that record and the store as it was, so the per-group occurrence count and the totals
  of the CanonicalMessage are unchanged; the record is the only RawMessage of the source
  key in its group and carries the fingerprint of the text.
\<close>

theorem ingest_idempotent:
  assumes "source_keys_unique st"
    and "ingest noise digest st g sender text ts k = (Inr r, st1)"
  shows "ingest noise digest st1 g sender' text ts' k = (Inr r, st1)
       \<and> rows_with_source_key st1 g k = [r]
       \<and> rm_fingerprint r = snd (normalize_text noise digest text)"
proof -
  obtain nt fp where n: "normalize_text noise digest text = (nt, fp)"
    by (cases "normalize_text noise digest text")
  show ?thesis
  proof (cases "find_by_source_key (raw_table st) g k")
    case None
    define row where "row = \<lparr>rm_group = g, rm_source_key = k, rm_sender = sender,
        rm_original = text, rm_normalized = nt, rm_fingerprint = fp, rm_timestamp = ts,
        rm_occurrence = group_count (raw_table st) fp g + 1\<rparr>"
    define st' where "st' = st\<lparr>raw_table := increment_latest g fp (raw_table st) @ [row]\<rparr>"
    have "ingest noise digest st g sender text ts k = (Inr row, snd (reconcile fp st'))"
      using None by (simp add: ingest_def n Let_def row_def st'_def)
    with assms(2) have r: "r = row" and st1: "st1 = snd (reconcile fp st')"
      by simp_all
    have raw: "raw_table st1 = increment_latest g fp (raw_table st) @ [row]"
      by (simp add: st1 raw_table_reconcile st'_def)
    have row: "rm_group row = g" "rm_source_key row = k" "rm_fingerprint row = fp"
      by (simp_all add: row_def)
    have "find_by_source_key (raw_table st1) g k = Some row"
      unfolding raw using None row(1,2) by (rule find_fresh_row)
    then have 1: "ingest noise digest st1 g sender' text ts' k = (Inr r, st1)"
      by (simp add: ingest_def n row r)
    have 2: "rows_with_source_key st1 g k = [r]"
      unfolding rows_with_source_key_def raw r using None row(1,2) by (rule filter_fresh_row)
    from 1 2 show ?thesis by (simp add: n r row)
  next
    case (Some existing)
    with assms(2) have same: "rm_fingerprint existing = fp" and r: "r = existing"
      and st1: "st1 = st"
      by (auto simp: ingest_def n split: if_splits)
    have 1: "ingest noise digest st1 g sender' text ts' k = (Inr r, st1)"
      using Some same by (simp add: ingest_def n r st1)
    from Some have e: "rm_group existing = g" "rm_source_key existing = k"
      "existing \<in> set (raw_table st)"
      using find_Some_fields by blast+
    have "filter (\<lambda>x. (rm_group x, rm_source_key x)
             = (rm_group existing, rm_source_key existing)) (raw_table st) = [existing]"
      using assms(1) e(3) unfolding source_keys_unique_def by (rule distinct_filter_key)
    then have 2: "rows_with_source_key st1 g k = [r]"
      by (simp add: rows_with_source_key_def e r st1)
    from 1 2 show ?thesis by (simp add: n r same)
  qed
qed

lemma first_ingest_record:
  "fst first_ingest =
     Inr \<lparr>rm_group = ''A'', rm_source_key = ''line-1'', rm_sender = ''ann'',
          rm_original = ''Lost my  charger'', rm_normalized = ''lost my charger'',
          rm_fingerprint = Digest ''lost my charger'', rm_timestamp = 100, rm_occurrence = 1\<rparr>"
proof -
  have "normalize_text (\<lambda>c. False) (\<lambda>t. t) ''Lost my  charger''
      = (''lost my charger'', Digest ''lost my charger'')"
    by code_simp
  then show ?thesis
    by (simp add: first_ingest_def ingest_def empty_store_def find_by_source_key_def
        group_count_def latest_row_def Let_def)
qed

theorem ingest_idempotent_witness:
  "source_keys_unique (empty_store :: string store)
   \<and> ingest (\<lambda>c. False) (\<lambda>t. t) (snd first_ingest) ''A'' ''ann'' ''Lost my  charger'' 100 ''line-1''
       = first_ingest
   \<and> rows_with_source_key (snd first_ingest) ''A'' ''line-1''
       = [\<lparr>rm_group = ''A'', rm_source_key = ''line-1'', rm_sender = ''ann'',
           rm_original = ''Lost my  charger'', rm_normalized = ''lost my charger'',
           rm_fingerprint = Digest ''lost my charger'', rm_timestamp = 100, rm_occurrence = 1\<rparr>]"
proof -
  let ?r = "\<lparr>rm_group = ''A'', rm_source_key = ''line-1'', rm_sender = ''ann'',
           rm_original = ''Lost my  charger'', rm_normalized = ''lost my charger'',
           rm_fingerprint = Digest ''lost my charger'', rm_timestamp = 100, rm_occurrence = 1\<rparr>"
  have first: "ingest (\<lambda>c. False) (\<lambda>t. t) empty_store ''A'' ''ann'' ''Lost my  charger'' 100 ''line-1''
      = (Inr ?r, snd first_ingest)"
    using first_ingest_record by (simp add: first_ingest_def prod_eq_iff)
  have whole: "first_ingest = (Inr ?r, snd first_ingest)"
    using first_ingest_record by (simp add: prod_eq_iff)
  from ingest_idempotent [OF source_keys_unique_empty first, of "''ann''" 100] whole
    source_keys_unique_empty [where ?'a = string]
  show ?thesis by simp
qed

end
